theory Spec2Isabelle
  imports Main "HOL-Library.Char_ord" "HOL-Library.List_Lexorder"
begin

section \<open>Values of the host language and of the host frameworks\<close>

text \<open>
  The library is glue between the ORM and the router of its host frameworks. The values
  it handles are modelled as follows.
  \<^item> An exception is a value of \<open>pyerror\<close>; a computation that may raise returns
    \<open>pyerror + 'a\<close>, with \<open>Inl\<close> for the exception.
  \<^item> A model instance is a record of its primary key and its remaining data; a queryset is
    the list of the instances it would fetch.
  \<^item> A handler is the function the router is given: it takes the request and the
    identifier of the path and returns the HTTP status with the body, or raises.
  \<^item> A decorator maps a handler to a handler.
\<close>

datatype pyerror =
    ValueError string
  | AttributeError string
  | TypeError string
  | DoesNotExist
  | MultipleObjectsReturned
  | Raised string

datatype pkval = PInt int | PStr string

datatype id_type = TInt | TStr | TUUID

record model_instance =
  pk :: pkval
  data :: "(string \<times> string) list"

type_synonym queryset = "model_instance list"

datatype request = HttpRequest string

datatype HTTPStatus = OK | NO_CONTENT

fun status_code :: "HTTPStatus \<Rightarrow> nat" where
  "status_code OK = 200"
| "status_code NO_CONTENT = 204"

type_synonym handler = "request \<Rightarrow> pkval \<Rightarrow> pyerror + (HTTPStatus \<times> model_instance option)"

type_synonym decorator = "handler \<Rightarrow> handler"

type_synonym schema = string

datatype kwval = KBool bool | KInt int | KStr string | KNone

subsection \<open>The views (views/abstract.py, views/retrieve.py)\<close>

text \<open>
  \<open>AbstractModelView.__init__\<close> stores the list of decorators, the empty list when none
  is given. \<open>RetrieveModelView.__init__\<close> adds the output schema and the optional
  queryset getter.
\<close>

record AbstractModelView =
  decorators :: "decorator list"

definition AbstractModelView_init :: "decorator list option \<Rightarrow> AbstractModelView" where
  "AbstractModelView_init ds =
     \<lparr>decorators = (case ds of None \<Rightarrow> [] | Some l \<Rightarrow> l)\<rparr>"

record RetrieveModelView = AbstractModelView +
  output_schema :: schema
  queryset_getter :: "(pkval \<Rightarrow> pyerror + queryset) option"

definition RetrieveModelView_init ::
  "schema \<Rightarrow> (pkval \<Rightarrow> pyerror + queryset) option \<Rightarrow> decorator list option \<Rightarrow> RetrieveModelView" where
  "RetrieveModelView_init out_schema getter ds =
     AbstractModelView.extend (AbstractModelView_init ds)
       \<lparr>output_schema = out_schema, queryset_getter = getter\<rparr>"

text \<open>
  Modelled from the spec: \<open>DeleteModelView\<close>, whose module is not among the sources
  (only its test is). The spec gives it the shape of the other views: configuration taken
  at construction, here the decorators and the keyword options for the router
  (\<open>router_kwargs\<close>), one HTTP verb registered at a fixed path template.
\<close>

record DeleteModelView = AbstractModelView +
  router_kwargs :: "(string \<times> kwval) list"

text \<open>
  Modelled from the spec: \<open>DeleteModelView.__init__\<close>, which is not among the sources;
  the test constructs the view from \<open>router_kwargs\<close> alone.
\<close>

definition DeleteModelView_init ::
  "decorator list option \<Rightarrow> (string \<times> kwval) list option \<Rightarrow> DeleteModelView" where
  "DeleteModelView_init ds kwargs =
     AbstractModelView.extend (AbstractModelView_init ds)
       \<lparr>router_kwargs = (case kwargs of None \<Rightarrow> [] | Some kw \<Rightarrow> kw)\<rparr>"

text \<open>An instance of \<open>AbstractModelView\<close> is an instance of one of its concrete subclasses.\<close>

datatype model_view = Retrieve RetrieveModelView | Delete DeleteModelView

subsection \<open>Python values and class objects\<close>

text \<open>
  A class object is its \<open>__name__\<close>, the rest of its \<open>__mro__\<close> (its ancestors in
  method resolution order, itself left out) and its own \<open>__dict__\<close>, in declaration
  order. Reading an attribute of a class searches the dictionaries along the MRO; the
  descriptor protocol and the attributes a metaclass serves itself are not modelled, apart
  from \<open>__name__\<close>. A manager is modelled by the queryset its \<open>get_queryset()\<close> returns,
  the \<open>_meta\<close> options of a model by the type of its primary key field.
\<close>

datatype pyval =
    VType pytype
  | VView model_view
  | VManager queryset
  | VOptions id_type
  | VFunction string
  | VStr string
  | VInt int
  | VBool bool
  | VNone
and pytype =
    PyType (cname: string) (cmro: "pytype list") (cdict: "(string \<times> pyval) list")

definition full_mro :: "pytype \<Rightarrow> pytype list" where
  "full_mro c = c # cmro c"

fun lookup_mro :: "pytype list \<Rightarrow> string \<Rightarrow> pyval option" where
  "lookup_mro [] n = None"
| "lookup_mro (c # cs) n =
     (case map_of (cdict c) n of Some v \<Rightarrow> Some v | None \<Rightarrow> lookup_mro cs n)"

definition attribute_error :: "string \<Rightarrow> string \<Rightarrow> pyerror" where
  "attribute_error owner n =
     AttributeError (owner @ '' has no attribute '' @ n)"

definition getattr :: "pytype \<Rightarrow> string \<Rightarrow> pyerror + pyval" where
  "getattr c n =
     (case lookup_mro (full_mro c) n of
        None \<Rightarrow> Inl (attribute_error (cname c) n)
      | Some v \<Rightarrow> Inr v)"

definition hasattr :: "pytype \<Rightarrow> string \<Rightarrow> bool" where
  "hasattr c n = (case getattr c n of Inl _ \<Rightarrow> False | Inr _ \<Rightarrow> True)"

text \<open>\<open>model_class.__name__\<close>: classes and functions have a name, the other values do not.\<close>

fun dunder_name :: "pyval \<Rightarrow> pyerror + string" where
  "dunder_name (VType t) = Inr (cname t)"
| "dunder_name (VFunction f) = Inr f"
| "dunder_name _ = Inl (attribute_error ''object'' ''__name__'')"

text \<open>Attribute access on a value that is used as a model class.\<close>

fun getattr_val :: "pyval \<Rightarrow> string \<Rightarrow> pyerror + pyval" where
  "getattr_val (VType t) n = getattr t n"
| "getattr_val _ n = Inl (attribute_error ''object'' n)"

definition isinstance_type :: "pyval \<Rightarrow> bool" where
  "isinstance_type v = (case v of VType _ \<Rightarrow> True | _ \<Rightarrow> False)"

definition issubclass :: "pytype \<Rightarrow> pytype \<Rightarrow> bool" where
  "issubclass c k = (k \<in> set (full_mro c))"

text \<open>
  The root class of the language and the base class of the ORM's models. Their own
  attributes are methods and descriptors, never views or model classes, and are left out
  of their dictionaries.
\<close>

definition object_type :: pytype where
  "object_type = PyType ''object'' [] []"

definition Model :: pytype where
  "Model = PyType ''Model'' [object_type] []"

subsection \<open>The ORM lookups\<close>

text \<open>
  \<open>queryset.get(pk=id)\<close> of the ORM: the one instance with that primary key; it raises
  when there is none and when there are several.
\<close>

definition queryset_get :: "queryset \<Rightarrow> pkval \<Rightarrow> pyerror + model_instance" where
  "queryset_get qs i =
     (case filter (\<lambda>x. pk x = i) qs of
        [] \<Rightarrow> Inl DoesNotExist
      | [x] \<Rightarrow> Inr x
      | _ \<Rightarrow> Inl MultipleObjectsReturned)"

text \<open>\<open>model_class.objects.get_queryset()\<close>.\<close>

definition objects_get_queryset :: "pyval \<Rightarrow> pyerror + queryset" where
  "objects_get_queryset model_class =
     (case getattr_val model_class ''objects'' of
        Inl e \<Rightarrow> Inl e
      | Inr (VManager qs) \<Rightarrow> Inr qs
      | Inr _ \<Rightarrow> Inl (attribute_error ''object'' ''get_queryset''))"

subsection \<open>The router\<close>

text \<open>
  The router belongs to the host framework. \<open>router.get(path=..., response=...,
  operation_id=..., summary=...)\<close> returns a decorator; applied to the handler, it adds
  one operation to the router's table. A router is modelled by the table of the
  operations registered so far, in the order of registration.
\<close>

datatype http_verb = GET | POST | PUT | DELETE

record route =
  verb :: http_verb
  path :: string
  response :: "schema option"
  operation_id :: string
  summary :: string
  kwargs :: "(string \<times> kwval) list"
  view_func :: handler

record Router =
  routes :: "route list"

definition add_api_operation :: "Router \<Rightarrow> route \<Rightarrow> Router" where
  "add_api_operation router r = router\<lparr>routes := routes router @ [r]\<rparr>"

definition router_get ::
  "Router \<Rightarrow> string \<Rightarrow> schema \<Rightarrow> string \<Rightarrow> string \<Rightarrow> handler \<Rightarrow> Router" where
  "router_get router p resp op_id summ func =
     add_api_operation router
       \<lparr>verb = GET, path = p, response = Some resp, operation_id = op_id,
        summary = summ, kwargs = [], view_func = func\<rparr>"

definition router_delete ::
  "Router \<Rightarrow> string \<Rightarrow> string \<Rightarrow> string \<Rightarrow> (string \<times> kwval) list \<Rightarrow> handler \<Rightarrow> Router" where
  "router_delete router p op_id summ kw func =
     add_api_operation router
       \<lparr>verb = DELETE, path = p, response = None, operation_id = op_id,
        summary = summ, kwargs = kw, view_func = func\<rparr>"

subsection \<open>utils\<close>

text \<open>
  Modelled from the spec: \<open>utils.to_snake_case\<close>, whose module is not among the
  sources. The spec: identifier-style case conversion, PascalCase or camelCase model name
  to snake\_case token. An underscore goes before every capital that is not the first
  character, and capitals become small letters.
\<close>

definition is_upper :: "char \<Rightarrow> bool" where
  "is_upper c = (CHR ''A'' \<le> c \<and> c \<le> CHR ''Z'')"

definition to_lower :: "char \<Rightarrow> char" where
  "to_lower c = (if is_upper c then char_of (of_char c + (32::nat)) else c)"

fun snake_chars :: "bool \<Rightarrow> string \<Rightarrow> string" where
  "snake_chars first [] = []"
| "snake_chars first (c # cs) =
     (if is_upper c \<and> \<not> first then ''_'' else []) @ to_lower c # snake_chars False cs"

definition to_snake_case :: "string \<Rightarrow> string" where
  "to_snake_case name = snake_chars True name"

text \<open>
  Modelled from the spec: \<open>utils.merge_decorators\<close>, whose module is not among the
  sources. The spec: decorator-list composition, apply a sequence of wrapping functions to
  a handler in order. The loop takes the decorators from the first to the last, each
  wrapping what the ones before it have produced.
\<close>

fun merge_decorators :: "decorator list \<Rightarrow> decorator" where
  "merge_decorators [] func = func"
| "merge_decorators (d # ds) func = merge_decorators ds (d func)"

text \<open>
  Modelled from the spec: \<open>utils.get_id_type\<close>, whose module is not among the sources.
  The spec: primary-key type lookup, inspect the model's primary key field to choose the
  path-parameter type. A value without the model options has no primary key field to
  inspect, and the lookup raises.
\<close>

definition get_id_type :: "pyval \<Rightarrow> pyerror + id_type" where
  "get_id_type model_class =
     (case getattr_val model_class ''_meta'' of
        Inl e \<Rightarrow> Inl e
      | Inr (VOptions t) \<Rightarrow> Inr t
      | Inr _ \<Rightarrow> Inl (attribute_error ''object'' ''pk''))"


section \<open>RetrieveModelView\<close>

definition get_queryset :: "RetrieveModelView \<Rightarrow> pyval \<Rightarrow> pkval \<Rightarrow> pyerror + queryset" where
  "get_queryset self model_class id' =
     (case queryset_getter self of
        None \<Rightarrow> objects_get_queryset model_class
      | Some g \<Rightarrow> g id')"

definition get_path :: "RetrieveModelView \<Rightarrow> string" where
  "get_path self = ''/{id}''"

definition retrieve_model :: "RetrieveModelView \<Rightarrow> pyval \<Rightarrow> handler" where
  "retrieve_model self model_class req id' =
     (case get_queryset self model_class id' of
        Inl e \<Rightarrow> Inl e
      | Inr qs \<Rightarrow>
          (case queryset_get qs id' of
             Inl e \<Rightarrow> Inl e
           | Inr inst \<Rightarrow> Inr (OK, Some inst)))"

text \<open>
  \<open>register_route\<close>: the arguments of \<open>router.get\<close> are evaluated first (the name of
  the model class is read there), then \<open>merge_decorators\<close>, then the annotation of the
  handler's \<open>id\<close> parameter, and at last the two decorators are applied to the handler,
  the router's one outermost.
\<close>

definition retrieve_register_route ::
  "RetrieveModelView \<Rightarrow> Router \<Rightarrow> pyval \<Rightarrow> pyerror + Router" where
  "retrieve_register_route self router model_class =
     (case dunder_name model_class of
        Inl e \<Rightarrow> Inl e
      | Inr name \<Rightarrow>
          (case get_id_type model_class of
             Inl e \<Rightarrow> Inl e
           | Inr _ \<Rightarrow>
               Inr (router_get router (get_path self) (output_schema self)
                      (''retrieve_'' @ to_snake_case name) (''Retrieve '' @ name)
                      (merge_decorators (decorators self) (retrieve_model self model_class)))))"

section \<open>DeleteModelView\<close>

text \<open>
  Modelled from the spec: \<open>DeleteModelView.register_route\<close> and its handler, whose
  module is not among the sources. As the spec has it for every view: one registration
  with the verb of the view's kind, at the fixed path template, the operation id and the
  summary built from the model's name, and the keyword options given to the constructor
  passed to the router as they are. The handler looks the record up by primary key; the
  removal from the database is the ORM's effect and is outside this model.
\<close>

definition delete_get_path :: "DeleteModelView \<Rightarrow> string" where
  "delete_get_path self = ''/{id}''"

text \<open>
  Modelled from the spec: the handler of \<open>DeleteModelView\<close>, which is not among the
  sources; it follows the shape of the handler of the Retrieve view and answers without a
  body.
\<close>

definition delete_model :: "DeleteModelView \<Rightarrow> pyval \<Rightarrow> handler" where
  "delete_model self model_class req id' =
     (case objects_get_queryset model_class of
        Inl e \<Rightarrow> Inl e
      | Inr qs \<Rightarrow>
          (case queryset_get qs id' of
             Inl e \<Rightarrow> Inl e
           | Inr inst \<Rightarrow> Inr (NO_CONTENT, None)))"

text \<open>
  Modelled from the spec: \<open>DeleteModelView.register_route\<close>, which is not among the
  sources: one call of the router's \<open>delete\<close>, carrying \<open>router_kwargs\<close> as given.
\<close>

definition delete_register_route ::
  "DeleteModelView \<Rightarrow> Router \<Rightarrow> pyval \<Rightarrow> pyerror + Router" where
  "delete_register_route self router model_class =
     (case dunder_name model_class of
        Inl e \<Rightarrow> Inl e
      | Inr name \<Rightarrow>
          (case get_id_type model_class of
             Inl e \<Rightarrow> Inl e
           | Inr _ \<Rightarrow>
               Inr (router_delete router (delete_get_path self)
                      (''delete_'' @ to_snake_case name) (''Delete '' @ name)
                      (router_kwargs self)
                      (merge_decorators (decorators self) (delete_model self model_class)))))"

text \<open>The abstract method, dispatched on the class of the view.\<close>

fun register_route :: "model_view \<Rightarrow> Router \<Rightarrow> pyval \<Rightarrow> pyerror + Router" where
  "register_route (Retrieve v) router model_class = retrieve_register_route v router model_class"
| "register_route (Delete v) router model_class = delete_register_route v router model_class"

section \<open>Class creation\<close>

text \<open>
  \<open>super().__new__(mcs, name, bases, attrs)\<close> is the language's own \<open>type.__new__\<close>:
  the new class has the given name and dictionary, and its MRO is the C3 merge of the
  MROs of its bases and of the list of the bases; \<open>object\<close> is the base when none is
  given. The creation raises \<open>TypeError\<close> when there is no consistent MRO.
\<close>

definition c3_good :: "'a list list \<Rightarrow> 'a \<Rightarrow> bool" where
  "c3_good seqs c = (\<forall>s \<in> set seqs. c \<notin> set (tl s))"

definition c3_candidate :: "'a list list \<Rightarrow> 'a option" where
  "c3_candidate seqs = find (c3_good seqs) (map hd seqs)"

definition c3_remove :: "'a \<Rightarrow> 'a list list \<Rightarrow> 'a list list" where
  "c3_remove c seqs = map (\<lambda>s. if hd s = c then tl s else s) seqs"

function c3_merge :: "'a list list \<Rightarrow> 'a list option" where
  "c3_merge seqs =
     (let ne = filter (\<lambda>s. s \<noteq> []) seqs in
      if ne = [] then Some []
      else (case c3_candidate ne of
              None \<Rightarrow> None
            | Some c \<Rightarrow> map_option ((#) c) (c3_merge (c3_remove c ne))))"
  by pat_completeness auto
termination
proof (relation "measure (\<lambda>seqs. sum_list (map length seqs))", goal_cases)
  case 1
  show ?case by simp
next
  case (2 seqs ne c)
  have rm_le: "sum_list (map length (c3_remove c xs)) \<le> sum_list (map length xs)"
    for xs :: "'a list list"
    by (induction xs) (auto simp: c3_remove_def)
  have rm_less: "sum_list (map length (c3_remove c xs)) < sum_list (map length xs)"
    if "s \<in> set xs" "s \<noteq> []" "hd s = c" for s and xs :: "'a list list"
    using that
  proof (induction xs)
    case Nil
    then show ?case by simp
  next
    case (Cons a xs)
    have unf: "c3_remove c (a # xs) = (if hd a = c then tl a else a) # c3_remove c xs"
      by (simp add: c3_remove_def)
    show ?case
    proof (cases "a = s")
      case True
      obtain y ys where a: "a = y # ys" using Cons.prems True by (cases a) auto
      then have "y = c" using Cons.prems True by simp
      then show ?thesis using rm_le [of xs] a unfolding unf by simp
    next
      case False
      then have "s \<in> set xs" using Cons.prems by simp
      then have lt: "sum_list (map length (c3_remove c xs)) < sum_list (map length xs)"
        using Cons.IH Cons.prems by simp
      have "length (if hd a = c then tl a else a) \<le> length a" by simp
      then show ?thesis using lt unfolding unf by simp
    qed
  qed
  have "\<exists>s \<in> set ne. hd s = c"
    using 2(3) by (auto simp: c3_candidate_def find_Some_iff)
  then obtain s where s: "s \<in> set ne" "hd s = c"
    by (elim bexE)
  from s(1) have "s \<in> set (filter (\<lambda>s. s \<noteq> []) seqs)" unfolding 2(1) .
  then have "s \<noteq> []" by simp
  then have lt: "sum_list (map length (c3_remove c ne)) < sum_list (map length ne)"
    using s by (intro rm_less [of s ne])
  have "sum_list (map length (filter (\<lambda>s. s \<noteq> []) seqs)) \<le> sum_list (map length seqs)"
    by (induction seqs) auto
  then have le: "sum_list (map length ne) \<le> sum_list (map length seqs)"
    unfolding 2(1) .
  from lt le have "sum_list (map length (c3_remove c ne)) < sum_list (map length seqs)"
    by (rule less_le_trans)
  then show ?case by (simp only: in_measure)
qed

definition type_new :: "string \<Rightarrow> pytype list \<Rightarrow> (string \<times> pyval) list \<Rightarrow> pyerror + pytype" where
  "type_new name bases attrs =
     (let bs = (if bases = [] then [object_type] else bases) in
      case c3_merge (map full_mro bs @ [bs]) of
        None \<Rightarrow>
          Inl (TypeError ''Cannot create a consistent method resolution order (MRO) for bases'')
      | Some m \<Rightarrow> Inr (PyType name m attrs))"

text \<open>
  \<open>dir(cls)\<close> of a class: the names in the dictionaries of the class and of all its
  ancestors, each once, sorted. Names are byte strings and are compared byte by byte,
  which is the code point order of the language's strings on UTF-8.
\<close>

definition dir :: "pytype \<Rightarrow> string list" where
  "dir cls = sort (remdups (concat (map (\<lambda>c. map fst (cdict c)) (full_mro cls))))"

section \<open>ModelViewSet (views/viewset.py)\<close>

definition validate_model_class :: "pytype \<Rightarrow> pyerror + unit" where
  "validate_model_class new_cls =
     (let cls_attr_name = ''model_class'' in
      if \<not> hasattr new_cls cls_attr_name then
        Inl (ValueError (cname new_cls @ ''.'' @ cls_attr_name @ '' class attribute must be set''))
      else
        (case getattr new_cls cls_attr_name of
           Inl e \<Rightarrow> Inl e
         | Inr cls_attr_value \<Rightarrow>
             if \<not> isinstance_type cls_attr_value \<or>
                \<not> (case cls_attr_value of VType t \<Rightarrow> issubclass t Model | _ \<Rightarrow> False)
             then
               Inl (ValueError (cname new_cls @ ''.'' @ cls_attr_name
                      @ '' must be a subclass of django.db.models.Model''))
             else Inr ()))"

definition ModelViewSetMeta_new ::
  "string \<Rightarrow> pytype list \<Rightarrow> (string \<times> pyval) list \<Rightarrow> pyerror + pytype" where
  "ModelViewSetMeta_new name bases attrs =
     (case type_new name bases attrs of
        Inl e \<Rightarrow> Inl e
      | Inr new_cls \<Rightarrow>
          if name \<noteq> ''ModelViewSet'' then
            (case validate_model_class new_cls of
               Inl e \<Rightarrow> Inl e
             | Inr _ \<Rightarrow> Inr new_cls)
          else Inr new_cls)"

text \<open>
  The base class. Its body holds the annotation of \<open>model_class\<close>, which is no attribute,
  and the class method \<open>register_routes\<close>.
\<close>

definition ModelViewSet_attrs :: "(string \<times> pyval) list" where
  "ModelViewSet_attrs =
     [(''__module__'', VStr ''ninja_crud.views.viewset''),
      (''__qualname__'', VStr ''ModelViewSet''),
      (''__annotations__'', VStr ''model_class: Type[Model]''),
      (''register_routes'', VFunction ''register_routes'')]"

definition ModelViewSet :: pytype where
  "ModelViewSet = PyType ''ModelViewSet'' [object_type] ModelViewSet_attrs"

text \<open>
  \<open>register_routes\<close>: the loop over \<open>dir(cls)\<close>. \<open>cls.model_class\<close> is read when a
  view has been found, once for each view.
\<close>

fun register_routes_loop :: "pytype \<Rightarrow> string list \<Rightarrow> Router \<Rightarrow> pyerror + Router" where
  "register_routes_loop cls [] router = Inr router"
| "register_routes_loop cls (attr_name # rest) router =
     (case getattr cls attr_name of
        Inl e \<Rightarrow> Inl e
      | Inr attr_value \<Rightarrow>
          (case attr_value of
             VView view \<Rightarrow>
               (case getattr cls ''model_class'' of
                  Inl e \<Rightarrow> Inl e
                | Inr model_class \<Rightarrow>
                    (case register_route view router model_class of
                       Inl e \<Rightarrow> Inl e
                     | Inr router' \<Rightarrow> register_routes_loop cls rest router'))
           | _ \<Rightarrow> register_routes_loop cls rest router))"

definition register_routes :: "pytype \<Rightarrow> Router \<Rightarrow> pyerror + Router" where
  "register_routes cls router = register_routes_loop cls (dir cls) router"

section \<open>Specification-level definitions\<close>

text \<open>
  The definitions of this section do not come from the source; they say what the
  properties below talk about, and each is compared with the source's functions there.

  \<open>view_attrs cls\<close> is the list of the attributes of a class whose value is a view, with
  that view, in the order \<open>dir\<close> gives the names. \<open>register_all\<close> calls
  \<open>register_route\<close> on each view of a list, one after the other, with one model class,
  and stops at the first call that raises.
\<close>

definition view_attrs_in :: "pytype \<Rightarrow> string list \<Rightarrow> (string \<times> model_view) list" where
  "view_attrs_in cls ns =
     concat (map (\<lambda>n. case getattr cls n of Inr (VView v) \<Rightarrow> [(n, v)] | _ \<Rightarrow> []) ns)"

definition view_attrs :: "pytype \<Rightarrow> (string \<times> model_view) list" where
  "view_attrs cls = view_attrs_in cls (dir cls)"

fun register_all :: "model_view list \<Rightarrow> pyval \<Rightarrow> Router \<Rightarrow> pyerror + Router" where
  "register_all [] mc router = Inr router"
| "register_all (v # vs) mc router =
     (case register_route v router mc of
        Inl e \<Rightarrow> Inl e
      | Inr router' \<Rightarrow> register_all vs mc router')"

text \<open>
  \<open>registration v mc\<close> is the operation the view \<open>v\<close> adds to a router for the model
  class \<open>mc\<close>, read off a router that was empty; \<open>registrations\<close> collects them for a
  list of views.
\<close>

definition registration :: "model_view \<Rightarrow> pyval \<Rightarrow> pyerror + route" where
  "registration v mc =
     (case register_route v \<lparr>routes = []\<rparr> mc of
        Inl e \<Rightarrow> Inl e
      | Inr r \<Rightarrow> Inr (last (routes r)))"

fun registrations :: "model_view list \<Rightarrow> pyval \<Rightarrow> pyerror + route list" where
  "registrations [] mc = Inr []"
| "registrations (v # vs) mc =
     (case registration v mc of
        Inl e \<Rightarrow> Inl e
      | Inr r \<Rightarrow> (case registrations vs mc of Inl e \<Rightarrow> Inl e | Inr rs \<Rightarrow> Inr (r # rs)))"

text \<open>
  A class has a valid model class when reading \<open>model_class\<close> succeeds and gives a class
  that is a subclass of the ORM's \<open>Model\<close>.
\<close>

definition has_valid_model_class :: "pytype \<Rightarrow> bool" where
  "has_valid_model_class cls =
     (case getattr cls ''model_class'' of
        Inr (VType t) \<Rightarrow> issubclass t Model
      | _ \<Rightarrow> False)"

section \<open>Example classes\<close>

text \<open>
  A model with two rows, a schema, a decorator that relabels the not-found error, and two
  view sets, the second a subclass of the first. They are the concrete inputs of the
  examples that follow the properties.
\<close>

definition Collection :: pytype where
  "Collection = PyType ''Collection'' [Model, object_type]
     [(''_meta'', VOptions TInt),
      (''objects'', VManager [\<lparr>pk = PInt 1, data = [(''name'', ''first'')]\<rparr>,
                             \<lparr>pk = PInt 2, data = [(''name'', ''second'')]\<rparr>])]"

definition CollectionOut :: schema where
  "CollectionOut = ''CollectionOut''"

definition relabel :: "string \<Rightarrow> decorator" where
  "relabel tag func req id' =
     (case func req id' of Inl DoesNotExist \<Rightarrow> Inl (Raised tag) | r \<Rightarrow> r)"

definition BaseViewSet_attrs :: "(string \<times> pyval) list" where
  "BaseViewSet_attrs =
     [(''model_class'', VType Collection),
      (''m_retrieve'', VView (Retrieve (RetrieveModelView_init CollectionOut None None)))]"

definition BaseViewSet :: pytype where
  "BaseViewSet = PyType ''BaseViewSet'' [ModelViewSet, object_type] BaseViewSet_attrs"

definition CollectionViewSet_attrs :: "(string \<times> pyval) list" where
  "CollectionViewSet_attrs =
     [(''z_retrieve'', VView (Retrieve (RetrieveModelView_init CollectionOut None None))),
      (''page_size'', VInt 20),
      (''a_delete'', VView (Delete (DeleteModelView_init None (Some [(''exclude_unset'', KBool True)]))))]"

definition CollectionViewSet :: pytype where
  "CollectionViewSet =
     PyType ''CollectionViewSet'' [BaseViewSet, ModelViewSet, object_type] CollectionViewSet_attrs"

section \<open>Properties\<close>

subsection \<open>Auxiliary facts\<close>

lemma register_route_registration:
  "register_route v router mc =
     (case registration v mc of
        Inl e \<Rightarrow> Inl e
      | Inr r \<Rightarrow> Inr (router\<lparr>routes := routes router @ [r]\<rparr>))"
  by (cases v)
     (simp_all add: registration_def retrieve_register_route_def delete_register_route_def
        router_get_def router_delete_def add_api_operation_def split: sum.splits)

lemma register_all_registrations:
  "register_all vs mc router =
     (case registrations vs mc of
        Inl e \<Rightarrow> Inl e
      | Inr rs \<Rightarrow> Inr (router\<lparr>routes := routes router @ rs\<rparr>))"
proof (induction vs arbitrary: router)
  case Nil
  show ?case by simp
next
  case (Cons v vs)
  show ?case
    by (simp add: register_route_registration [of v router mc] Cons.IH split: sum.splits)
qed

lemma registrations_length:
  "registrations vs mc = Inr rs \<Longrightarrow> length rs = length vs"
  by (induction vs arbitrary: rs) (auto split: sum.splits)

lemma lookup_mro_dom:
  "(\<exists>v. lookup_mro cs n = Some v) \<longleftrightarrow> n \<in> set (concat (map (\<lambda>c. map fst (cdict c)) cs))"
proof (induction cs)
  case Nil
  show ?case by simp
next
  case (Cons c cs)
  show ?case
  proof (cases "map_of (cdict c) n")
    case None
    then have "n \<notin> fst ` set (cdict c)" by (simp add: map_of_eq_None_iff)
    then show ?thesis using None Cons.IH by auto
  next
    case (Some v)
    then have "n \<in> fst ` set (cdict c)" by (metis map_of_eq_None_iff option.distinct(1))
    then show ?thesis using Some by auto
  qed
qed

lemma lookup_mro_inherited:
  "\<forall>c \<in> set pre. map_of (cdict c) n = None \<Longrightarrow> map_of (cdict b) n = Some v \<Longrightarrow>
   lookup_mro (pre @ b # post) n = Some v"
  by (induction pre) simp_all

lemma dir_set: "set (dir cls) = {n. \<exists>v. getattr cls n = Inr v}"
proof -
  have "(\<exists>v. getattr cls n = Inr v) \<longleftrightarrow> (\<exists>v. lookup_mro (full_mro cls) n = Some v)" for n
    by (auto simp: getattr_def split: option.splits)
  then show ?thesis
    by (auto simp: dir_def lookup_mro_dom simp del: set_concat)
qed

lemma dir_sorted: "sorted_wrt (<) (dir cls)"
  by (simp add: dir_def strict_sorted_iff)

lemma dir_getattr: "\<forall>n \<in> set (dir cls). \<exists>v. getattr cls n = Inr v"
  by (simp add: dir_set)

lemma loop_register_all:
  assumes "getattr cls ''model_class'' = Inr mc"
      and "\<forall>n \<in> set ns. \<exists>v. getattr cls n = Inr v"
  shows "register_routes_loop cls ns router =
         register_all (map snd (view_attrs_in cls ns)) mc router"
  using assms(2)
proof (induction ns arbitrary: router)
  case Nil
  show ?case by (simp add: view_attrs_in_def)
next
  case (Cons n ns)
  then obtain v where v: "getattr cls n = Inr v" by auto
  have IH: "register_routes_loop cls ns r =
            register_all (map snd (view_attrs_in cls ns)) mc r" for r
    using Cons by simp
  have unf: "view_attrs_in cls (n # ns) =
             (case v of VView w \<Rightarrow> [(n, w)] | _ \<Rightarrow> []) @ view_attrs_in cls ns"
    by (simp add: view_attrs_in_def v)
  show ?case
    unfolding unf by (cases v) (simp_all add: v assms(1) IH split: sum.splits)
qed

lemma loop_no_model_class:
  assumes "getattr cls ''model_class'' = Inl e"
      and "\<forall>n \<in> set ns. \<exists>v. getattr cls n = Inr v"
      and "view_attrs_in cls ns \<noteq> []"
  shows "register_routes_loop cls ns router = Inl e"
  using assms(2,3)
proof (induction ns)
  case Nil
  then show ?case by (simp add: view_attrs_in_def)
next
  case (Cons n ns)
  then obtain v where v: "getattr cls n = Inr v" by auto
  have unf: "view_attrs_in cls (n # ns) =
             (case v of VView w \<Rightarrow> [(n, w)] | _ \<Rightarrow> []) @ view_attrs_in cls ns"
    by (simp add: view_attrs_in_def v)
  show ?case
    using Cons unfolding unf by (cases v) (simp_all add: v assms(1))
qed

lemma loop_no_views:
  assumes "\<forall>n \<in> set ns. \<exists>v. getattr cls n = Inr v" and "view_attrs_in cls ns = []"
  shows "register_routes_loop cls ns router = Inr router"
  using assms
proof (induction ns)
  case Nil
  show ?case by simp
next
  case (Cons n ns)
  then obtain v where v: "getattr cls n = Inr v" by auto
  have unf: "view_attrs_in cls (n # ns) =
             (case v of VView w \<Rightarrow> [(n, w)] | _ \<Rightarrow> []) @ view_attrs_in cls ns"
    by (simp add: view_attrs_in_def v)
  show ?case
    using Cons unfolding unf by (cases v) (simp_all add: v)
qed

lemma view_attrs_in_names:
  "map fst (view_attrs_in cls ns) =
   filter (\<lambda>n. \<exists>v. getattr cls n = Inr (VView v)) ns"
proof (induction ns)
  case Nil
  show ?case by (simp add: view_attrs_in_def)
next
  case (Cons n ns)
  have unf: "view_attrs_in cls (n # ns) =
             (case getattr cls n of Inr (VView w) \<Rightarrow> [(n, w)] | _ \<Rightarrow> []) @ view_attrs_in cls ns"
    by (simp add: view_attrs_in_def)
  show ?case
    unfolding unf using Cons.IH by (auto split: sum.splits pyval.splits)
qed

lemma view_attrs_in_set:
  "set (view_attrs_in cls ns) = {(n, v). n \<in> set ns \<and> getattr cls n = Inr (VView v)}"
  by (auto simp: view_attrs_in_def split: sum.splits pyval.splits)

lemma register_routes_register_all:
  "getattr cls ''model_class'' = Inr mc \<Longrightarrow>
   register_routes cls router = register_all (map snd (view_attrs cls)) mc router"
  unfolding register_routes_def view_attrs_def
  by (rule loop_register_all [OF _ dir_getattr])

lemma register_routes_no_model_class:
  assumes "getattr cls ''model_class'' = Inl e" and "view_attrs cls \<noteq> []"
  shows "register_routes cls router = Inl e"
  unfolding register_routes_def
  using assms(2) unfolding view_attrs_def
  by (rule loop_no_model_class [OF assms(1) dir_getattr])

lemma register_routes_no_views:
  "view_attrs cls = [] \<Longrightarrow> register_routes cls router = Inr router"
  unfolding register_routes_def view_attrs_def
  by (rule loop_no_views [OF dir_getattr])

lemma register_routes_appends:
  assumes "register_routes cls router = Inr router1" and "view_attrs cls \<noteq> []"
  shows "\<exists>mc rs. getattr cls ''model_class'' = Inr mc \<and>
           registrations (map snd (view_attrs cls)) mc = Inr rs \<and>
           length rs = length (view_attrs cls) \<and>
           (\<forall>r. register_routes cls r = Inr (r\<lparr>routes := routes r @ rs\<rparr>))"
proof (cases "getattr cls ''model_class''")
  case (Inl e)
  then show ?thesis
    using register_routes_no_model_class [OF Inl assms(2), of router] assms(1) by simp
next
  case (Inr mc)
  have eq: "register_routes cls r =
            (case registrations (map snd (view_attrs cls)) mc of
               Inl e \<Rightarrow> Inl e
             | Inr rs \<Rightarrow> Inr (r\<lparr>routes := routes r @ rs\<rparr>))" for r
    by (simp add: register_routes_register_all [OF Inr] register_all_registrations)
  show ?thesis
  proof (cases "registrations (map snd (view_attrs cls)) mc")
    case (Inl e)
    then show ?thesis using eq [of router] assms(1) by simp
  next
    case rs: (Inr rs)
    have "length rs = length (view_attrs cls)"
      using registrations_length [OF rs] by simp
    then show ?thesis using Inr rs eq by simp
  qed
qed

lemma view_attrs_sorted: "sorted_wrt (<) (map fst (view_attrs cls))"
  unfolding view_attrs_def view_attrs_in_names
  by (rule sorted_wrt_filter [OF dir_sorted])

lemma view_attrs_set: "set (view_attrs cls) = {(n, v). getattr cls n = Inr (VView v)}"
  unfolding view_attrs_def view_attrs_in_set using dir_set by auto

lemma validate_invalid:
  "\<not> has_valid_model_class c \<Longrightarrow>
   validate_model_class c =
     Inl (ValueError (cname c @
       (if hasattr c ''model_class'' then ''.model_class must be a subclass of django.db.models.Model''
        else ''.model_class class attribute must be set'')))"
  by (auto simp: validate_model_class_def has_valid_model_class_def hasattr_def isinstance_type_def
      split: sum.splits pyval.splits)

lemma validate_valid:
  "has_valid_model_class c \<Longrightarrow> validate_model_class c = Inr ()"
  by (auto simp: validate_model_class_def has_valid_model_class_def hasattr_def isinstance_type_def
      split: sum.splits pyval.splits)

lemma type_new_name: "type_new name bases attrs = Inr c \<Longrightarrow> cname c = name \<and> cdict c = attrs"
  by (auto simp: type_new_def Let_def split: option.splits)

lemma created_has_model_class:
  assumes "ModelViewSetMeta_new name bases attrs = Inr cls" and "name \<noteq> ''ModelViewSet''"
  shows "\<exists>t. getattr cls ''model_class'' = Inr (VType t) \<and> issubclass t Model"
proof -
  from assms have tn: "type_new name bases attrs = Inr cls"
    by (auto simp: ModelViewSetMeta_new_def split: sum.splits if_splits)
  have "has_valid_model_class cls"
  proof (rule ccontr)
    assume "\<not> has_valid_model_class cls"
    from validate_invalid [OF this] show False
      using assms tn by (simp add: ModelViewSetMeta_new_def)
  qed
  then show ?thesis
    by (auto simp: has_valid_model_class_def split: sum.splits pyval.splits)
qed

lemma merge_decorators_foldl:
  "merge_decorators ds func = foldl (\<lambda>h d. d h) func ds"
  by (induction ds arbitrary: func) simp_all

lemma merge_decorators_snoc:
  "merge_decorators (ds @ [d]) func = d (merge_decorators ds func)"
  by (simp add: merge_decorators_foldl)

subsection \<open>Facts about the example classes\<close>

lemma type_new_single:
  "type_new n [ModelViewSet] attrs = Inr (PyType n [ModelViewSet, object_type] attrs)"
  by (simp add: type_new_def full_mro_def Let_def c3_candidate_def c3_good_def c3_remove_def
      ModelViewSet_def object_type_def)

lemma get_id_type_Collection: "get_id_type (VType Collection) = Inr TInt"
  by (simp add: get_id_type_def getattr_def full_mro_def Collection_def)

lemma objects_Collection:
  "objects_get_queryset (VType Collection) =
     Inr [\<lparr>pk = PInt 1, data = [(''name'', ''first'')]\<rparr>,
          \<lparr>pk = PInt 2, data = [(''name'', ''second'')]\<rparr>]"
  by (simp add: objects_get_queryset_def getattr_def full_mro_def Collection_def)

lemma BaseViewSet_created:
  "ModelViewSetMeta_new ''BaseViewSet'' [ModelViewSet] BaseViewSet_attrs = Inr BaseViewSet"
  by (simp add: ModelViewSetMeta_new_def type_new_single BaseViewSet_def validate_model_class_def
      hasattr_def getattr_def full_mro_def BaseViewSet_attrs_def isinstance_type_def
      issubclass_def Collection_def)

lemma type_new_CollectionViewSet:
  "type_new ''CollectionViewSet'' [BaseViewSet] CollectionViewSet_attrs = Inr CollectionViewSet"
  by (simp add: type_new_def full_mro_def Let_def c3_candidate_def c3_good_def c3_remove_def
      BaseViewSet_def CollectionViewSet_def ModelViewSet_def object_type_def)

lemma model_class_CollectionViewSet:
  "getattr CollectionViewSet ''model_class'' = Inr (VType Collection)"
  by (simp add: getattr_def full_mro_def CollectionViewSet_def
      CollectionViewSet_attrs_def BaseViewSet_def BaseViewSet_attrs_def)

lemma CollectionViewSet_created:
  "ModelViewSetMeta_new ''CollectionViewSet'' [BaseViewSet] CollectionViewSet_attrs =
     Inr CollectionViewSet"
proof -
  have "has_valid_model_class CollectionViewSet"
    by (simp add: has_valid_model_class_def model_class_CollectionViewSet issubclass_def
        full_mro_def Collection_def)
  then show ?thesis
    by (simp add: ModelViewSetMeta_new_def type_new_CollectionViewSet validate_valid)
qed

lemma dir_CollectionViewSet:
  "dir CollectionViewSet =
     [''__annotations__'', ''__module__'', ''__qualname__'', ''a_delete'', ''m_retrieve'',
      ''model_class'', ''page_size'', ''register_routes'', ''z_retrieve'']"
  by (simp add: dir_def full_mro_def CollectionViewSet_def CollectionViewSet_attrs_def
      BaseViewSet_def BaseViewSet_attrs_def ModelViewSet_def ModelViewSet_attrs_def object_type_def)

lemma view_attrs_CollectionViewSet:
  "view_attrs CollectionViewSet =
     [(''a_delete'', Delete (DeleteModelView_init None (Some [(''exclude_unset'', KBool True)]))),
      (''m_retrieve'', Retrieve (RetrieveModelView_init CollectionOut None None)),
      (''z_retrieve'', Retrieve (RetrieveModelView_init CollectionOut None None))]"
  unfolding view_attrs_def dir_CollectionViewSet
  by (simp add: view_attrs_in_def getattr_def full_mro_def CollectionViewSet_def
      CollectionViewSet_attrs_def BaseViewSet_def BaseViewSet_attrs_def ModelViewSet_def
      ModelViewSet_attrs_def object_type_def)

lemma registrations_CollectionViewSet:
  "\<exists>d r. registrations (map snd (view_attrs CollectionViewSet)) (VType Collection) = Inr [d, r, r] \<and>
         verb d = DELETE \<and> verb r = GET"
  unfolding view_attrs_CollectionViewSet
  by (simp add: registration_def retrieve_register_route_def delete_register_route_def
      get_id_type_Collection router_get_def router_delete_def add_api_operation_def)

subsection \<open>Class creation and validation\<close>

text \<open>
  Claim C1. A class created through the metaclass under a name other than
  \<open>ModelViewSet\<close> that has no \<open>model_class\<close> attribute, or whose \<open>model_class\<close> is
  not a class that is a subclass of the ORM's \<open>Model\<close>, is not created: the creation
  raises. When the language itself could build the class, the error is the
  \<open>ValueError\<close> of the validation, with the message of the check that failed; no class
  object is returned, so there is nothing to instantiate.
\<close>

theorem invalid_model_class_fails:
  assumes "name \<noteq> ''ModelViewSet''"
      and "case type_new name bases attrs of Inl e \<Rightarrow> True | Inr c \<Rightarrow> \<not> has_valid_model_class c"
  shows "(\<exists>e. ModelViewSetMeta_new name bases attrs = Inl e) \<and>
         (\<forall>c. type_new name bases attrs = Inr c \<longrightarrow>
            ModelViewSetMeta_new name bases attrs =
              Inl (ValueError (name @
                (if hasattr c ''model_class''
                 then ''.model_class must be a subclass of django.db.models.Model''
                 else ''.model_class class attribute must be set''))))"
proof (cases "type_new name bases attrs")
  case (Inl e)
  then show ?thesis by (simp add: ModelViewSetMeta_new_def)
next
  case (Inr c)
  then have inv: "\<not> has_valid_model_class c" using assms(2) by simp
  have nm: "cname c = name" using Inr type_new_name by blast
  show ?thesis
    using Inr assms(1) validate_invalid [OF inv] nm
    by (simp add: ModelViewSetMeta_new_def)
qed

text \<open>
  A view set whose \<open>model_class\<close> is a string, not a class.
\<close>

theorem invalid_model_class_fails_witness:
  "''CollectionViewSet'' \<noteq> ''ModelViewSet'' \<and>
   ModelViewSetMeta_new ''CollectionViewSet'' [ModelViewSet] [(''model_class'', VStr ''Collection'')] =
     Inl (ValueError ''CollectionViewSet.model_class must be a subclass of django.db.models.Model'')"
proof -
  let ?attrs = "[(''model_class'', VStr ''Collection'')]"
  let ?c = "PyType ''CollectionViewSet'' [ModelViewSet, object_type] ?attrs"
  have tn: "type_new ''CollectionViewSet'' [ModelViewSet] ?attrs = Inr ?c"
    by (rule type_new_single)
  have inv: "\<not> has_valid_model_class ?c"
    by (simp add: has_valid_model_class_def getattr_def full_mro_def)
  have has: "hasattr ?c ''model_class''"
    by (simp add: hasattr_def getattr_def full_mro_def)
  have ne: "''CollectionViewSet'' \<noteq> ''ModelViewSet''" by simp
  have h2: "case type_new ''CollectionViewSet'' [ModelViewSet] ?attrs of
              Inl e \<Rightarrow> True | Inr c \<Rightarrow> \<not> has_valid_model_class c"
    using inv by (simp add: tn)
  show ?thesis
    using invalid_model_class_fails [OF ne h2] tn has by simp
qed

text \<open>
  Claim C9. Whether the metaclass validates depends on the name alone: under the name
  \<open>ModelViewSet\<close> the result is whatever \<open>type.__new__\<close> gives, for any bases and any
  attributes; under any other name the new class goes through \<open>validate_model_class\<close>
  and is returned only when the validation passes.
\<close>

theorem validation_iff_name_differs:
  "(name = ''ModelViewSet'' \<longrightarrow>
      ModelViewSetMeta_new name bases attrs = type_new name bases attrs) \<and>
   (name \<noteq> ''ModelViewSet'' \<longrightarrow>
      ModelViewSetMeta_new name bases attrs =
        (case type_new name bases attrs of
           Inl e \<Rightarrow> Inl e
         | Inr new_cls \<Rightarrow>
             (case validate_model_class new_cls of
                Inl e \<Rightarrow> Inl e
              | Inr _ \<Rightarrow> Inr new_cls)))"
  by (simp add: ModelViewSetMeta_new_def split: sum.splits)

text \<open>
  A subclass of the base class that is itself named \<open>ModelViewSet\<close> and has no
  \<open>model_class\<close> is created; the same class body under another name is refused.
\<close>

theorem validation_iff_name_differs_witness:
  "ModelViewSetMeta_new ''ModelViewSet'' [ModelViewSet] [] =
     Inr (PyType ''ModelViewSet'' [ModelViewSet, object_type] []) \<and>
   \<not> hasattr (PyType ''ModelViewSet'' [ModelViewSet, object_type] []) ''model_class'' \<and>
   ModelViewSetMeta_new ''ItemViewSet'' [ModelViewSet] [] =
     Inl (ValueError ''ItemViewSet.model_class class attribute must be set'')"
proof -
  have a: "ModelViewSetMeta_new ''ModelViewSet'' [ModelViewSet] [] =
           type_new ''ModelViewSet'' [ModelViewSet] []"
    using validation_iff_name_differs [of "''ModelViewSet''" "[ModelViewSet]" "[]"] by simp
  have no: "\<not> hasattr (PyType n [ModelViewSet, object_type] []) ''model_class''" for n
    by (simp add: hasattr_def getattr_def full_mro_def ModelViewSet_def ModelViewSet_attrs_def
        object_type_def)
  have b: "ModelViewSetMeta_new ''ItemViewSet'' [ModelViewSet] [] =
           (case type_new ''ItemViewSet'' [ModelViewSet] [] of
              Inl e \<Rightarrow> Inl e
            | Inr new_cls \<Rightarrow>
                (case validate_model_class new_cls of
                   Inl e \<Rightarrow> Inl e
                 | Inr _ \<Rightarrow> Inr new_cls))"
    using validation_iff_name_differs [of "''ItemViewSet''" "[ModelViewSet]" "[]"] by simp
  show ?thesis
    unfolding a b type_new_single using no
    by (simp add: validate_model_class_def)
qed

subsection \<open>The Retrieve view\<close>

text \<open>
  Claim C3. For a model class whose primary key type can be read, \<open>register_route\<close> of
  a Retrieve view adds exactly one operation to the router: verb GET, path \<open>/{id}\<close>
  (the value of \<open>get_path\<close>), the view's output schema as response, operation id
  \<open>retrieve_\<close> followed by the snake-cased name of the model, summary \<open>Retrieve\<close>
  followed by the name of the model.
\<close>

theorem retrieve_registers_one_get_route:
  assumes "get_id_type (VType m) = Inr t"
  shows "register_route (Retrieve v) router (VType m) =
           Inr (router\<lparr>routes := routes router @
                  [\<lparr>verb = GET, path = ''/{id}'', response = Some (output_schema v),
                    operation_id = ''retrieve_'' @ to_snake_case (cname m),
                    summary = ''Retrieve '' @ cname m, kwargs = [],
                    view_func = merge_decorators (decorators v) (retrieve_model v (VType m))\<rparr>]\<rparr>)
         \<and> get_path v = ''/{id}''"
  using assms
  by (simp add: retrieve_register_route_def router_get_def add_api_operation_def get_path_def)

text \<open>
  The route of the model \<open>Collection\<close> on an empty router.
\<close>

theorem retrieve_registers_one_get_route_witness:
  "get_id_type (VType Collection) = Inr TInt \<and>
   (\<exists>h. register_route (Retrieve (RetrieveModelView_init CollectionOut None None))
           \<lparr>routes = []\<rparr> (VType Collection) =
         Inr \<lparr>routes = [\<lparr>verb = GET, path = ''/{id}'', response = Some CollectionOut,
                          operation_id = ''retrieve_collection'',
                          summary = ''Retrieve Collection'', kwargs = [], view_func = h\<rparr>]\<rparr>)"
proof -
  have sc: "to_snake_case ''Collection'' = ''collection''"
    by code_simp
  have nm: "cname Collection = ''Collection''"
    by (simp add: Collection_def)
  show ?thesis
    using retrieve_registers_one_get_route [OF get_id_type_Collection, of "RetrieveModelView_init CollectionOut None None" "\<lparr>routes = []\<rparr>"]
    by (simp add: get_id_type_Collection nm sc RetrieveModelView_init_def
        AbstractModelView_init_def AbstractModelView.extend_def)
qed

text \<open>
  Claim C4. Without a queryset getter, \<open>get_queryset\<close> returns the queryset of the
  model's \<open>objects\<close> manager; with one, it returns what the getter returns for the
  identifier.
\<close>

theorem get_queryset_default_or_getter:
  "(queryset_getter v = None \<longrightarrow>
      get_queryset v model_class id' = objects_get_queryset model_class) \<and>
   (\<forall>g. queryset_getter v = Some g \<longrightarrow> get_queryset v model_class id' = g id')"
  by (simp add: get_queryset_def)

text \<open>
  Both cases on the model \<open>Collection\<close>.
\<close>

theorem get_queryset_default_or_getter_witness:
  "get_queryset (RetrieveModelView_init CollectionOut None None) (VType Collection) (PInt 2) =
     Inr [\<lparr>pk = PInt 1, data = [(''name'', ''first'')]\<rparr>,
          \<lparr>pk = PInt 2, data = [(''name'', ''second'')]\<rparr>] \<and>
   get_queryset
     (RetrieveModelView_init CollectionOut (Some (\<lambda>i. Inr [\<lparr>pk = i, data = []\<rparr>])) None)
     (VType Collection) (PInt 2) = Inr [\<lparr>pk = PInt 2, data = []\<rparr>]"
proof -
  let ?g = "\<lambda>i. Inr [\<lparr>pk = i, data = []\<rparr>] :: pyerror + queryset"
  have n: "queryset_getter (RetrieveModelView_init CollectionOut None None) = None"
    by (simp add: RetrieveModelView_init_def AbstractModelView.extend_def)
  have g: "queryset_getter (RetrieveModelView_init CollectionOut (Some ?g) None) = Some ?g"
    by (simp add: RetrieveModelView_init_def AbstractModelView.extend_def)
  show ?thesis
    using get_queryset_default_or_getter [of "RetrieveModelView_init CollectionOut None None" "VType Collection" "PInt 2"]
          get_queryset_default_or_getter [of "RetrieveModelView_init CollectionOut (Some ?g) None" "VType Collection" "PInt 2"]
    by (simp add: n g objects_Collection)
qed

text \<open>
  Claim C5. In the handler of a Retrieve view, when no record of the queryset has the
  primary key, the handler raises the ORM's \<open>DoesNotExist\<close> as it is; when exactly one
  has it, the handler returns status 200 with that record.
\<close>

theorem retrieve_model_not_found_propagates:
  assumes "get_queryset v model_class id' = Inr qs"
  shows "(filter (\<lambda>x. pk x = id') qs = [] \<longrightarrow>
            retrieve_model v model_class req id' = Inl DoesNotExist) \<and>
         (\<forall>inst. filter (\<lambda>x. pk x = id') qs = [inst] \<longrightarrow>
            retrieve_model v model_class req id' = Inr (OK, Some inst) \<and> status_code OK = 200)"
  using assms by (simp add: retrieve_model_def queryset_get_def)

text \<open>
  The key 3 is not in the table of \<open>Collection\<close>, the key 2 is.
\<close>

theorem retrieve_model_not_found_propagates_witness:
  "retrieve_model (RetrieveModelView_init CollectionOut None None) (VType Collection)
     (HttpRequest ''GET /3'') (PInt 3) = Inl DoesNotExist \<and>
   retrieve_model (RetrieveModelView_init CollectionOut None None) (VType Collection)
     (HttpRequest ''GET /2'') (PInt 2) =
       Inr (OK, Some \<lparr>pk = PInt 2, data = [(''name'', ''second'')]\<rparr>)"
proof -
  let ?v = "RetrieveModelView_init CollectionOut None None"
  let ?qs = "[\<lparr>pk = PInt 1, data = [(''name'', ''first'')]\<rparr>,
              \<lparr>pk = PInt 2, data = [(''name'', ''second'')]\<rparr>]"
  have n: "queryset_getter ?v = None"
    by (simp add: RetrieveModelView_init_def AbstractModelView.extend_def)
  have q: "get_queryset ?v (VType Collection) i = Inr ?qs" for i
    by (simp add: get_queryset_def n objects_Collection)
  show ?thesis
    using retrieve_model_not_found_propagates [OF q [of "PInt 3"], of "HttpRequest ''GET /3''"]
          retrieve_model_not_found_propagates [OF q [of "PInt 2"], of "HttpRequest ''GET /2''"]
    by simp
qed

text \<open>
  Claim C6. When a view constructed with the decorators \<open>ds\<close> registers its route, the
  handler given to the router is the handler closure of the view wrapped by each
  decorator of \<open>ds\<close> in turn, from the first to the last; this holds for the Retrieve
  view and for the Delete view. (\<open>merge_decorators\<close> is modelled from the spec.)
\<close>

theorem decorators_applied_in_declared_order:
  "(register_route (Retrieve (RetrieveModelView_init out_schema getter (Some ds)))
      router model_class = Inr router' \<longrightarrow>
    length (routes router') = Suc (length (routes router)) \<and>
    view_func (last (routes router')) =
      foldl (\<lambda>h d. d h)
        (retrieve_model (RetrieveModelView_init out_schema getter (Some ds)) model_class) ds) \<and>
   (register_route (Delete (DeleteModelView_init (Some ds) kw))
      router model_class = Inr router'' \<longrightarrow>
    length (routes router'') = Suc (length (routes router)) \<and>
    view_func (last (routes router'')) =
      foldl (\<lambda>h d. d h)
        (delete_model (DeleteModelView_init (Some ds) kw) model_class) ds)"
proof (intro conjI impI)
  let ?v = "RetrieveModelView_init out_schema getter (Some ds)"
  assume reg: "register_route (Retrieve ?v) router model_class = Inr router'"
  have d: "decorators ?v = ds"
    by (simp add: RetrieveModelView_init_def AbstractModelView_init_def
        AbstractModelView.extend_def)
  from reg obtain r where r: "routes router' = routes router @ [r]"
    "view_func r = merge_decorators (decorators ?v) (retrieve_model ?v model_class)"
    by (auto simp: retrieve_register_route_def router_get_def add_api_operation_def
        split: sum.splits)
  show "length (routes router') = Suc (length (routes router))"
    using r by simp
  show "view_func (last (routes router')) = foldl (\<lambda>h d. d h) (retrieve_model ?v model_class) ds"
    using r by (simp add: d merge_decorators_foldl)
next
  let ?v = "DeleteModelView_init (Some ds) kw"
  assume reg: "register_route (Delete ?v) router model_class = Inr router''"
  have d: "decorators ?v = ds"
    by (simp add: DeleteModelView_init_def AbstractModelView_init_def
        AbstractModelView.extend_def)
  from reg obtain r where r: "routes router'' = routes router @ [r]"
    "view_func r = merge_decorators (decorators ?v) (delete_model ?v model_class)"
    by (auto simp: delete_register_route_def router_delete_def add_api_operation_def
        split: sum.splits)
  show "length (routes router'') = Suc (length (routes router))"
    using r by simp
  show "view_func (last (routes router'')) = foldl (\<lambda>h d. d h) (delete_model ?v model_class) ds"
    using r by (simp add: d merge_decorators_foldl)
qed

text \<open>
  Two decorators that relabel the not-found error: the first of the list wraps the
  handler first, so its label is the one that comes out.
\<close>

theorem decorators_applied_in_declared_order_witness:
  "(\<exists>router'.
      register_route
        (Retrieve (RetrieveModelView_init CollectionOut None (Some [relabel ''first'', relabel ''second''])))
        \<lparr>routes = []\<rparr> (VType Collection) = Inr router' \<and>
      view_func (last (routes router')) =
        relabel ''second'' (relabel ''first''
          (retrieve_model
             (RetrieveModelView_init CollectionOut None (Some [relabel ''first'', relabel ''second'']))
             (VType Collection))) \<and>
      view_func (last (routes router')) (HttpRequest ''GET /3'') (PInt 3) = Inl (Raised ''first''))"
proof -
  let ?ds = "[relabel ''first'', relabel ''second'']"
  let ?v = "RetrieveModelView_init CollectionOut None (Some ?ds)"
  obtain router' where
    reg: "register_route (Retrieve ?v) \<lparr>routes = []\<rparr> (VType Collection) = Inr router'"
    by (simp add: retrieve_register_route_def get_id_type_Collection)
  have composed: "view_func (last (routes router')) =
                    foldl (\<lambda>h d. d h) (retrieve_model ?v (VType Collection)) ?ds"
    using decorators_applied_in_declared_order
            [of CollectionOut None ?ds "\<lparr>routes = []\<rparr>" "VType Collection" router'] reg
    by blast
  have n: "queryset_getter ?v = None"
    by (simp add: RetrieveModelView_init_def AbstractModelView.extend_def)
  have miss: "retrieve_model ?v (VType Collection) (HttpRequest ''GET /3'') (PInt 3) = Inl DoesNotExist"
    by (simp add: retrieve_model_def get_queryset_def n objects_Collection queryset_get_def)
  have "view_func (last (routes router')) (HttpRequest ''GET /3'') (PInt 3) = Inl (Raised ''first'')"
    unfolding composed by (simp add: relabel_def miss)
  then show ?thesis
    using reg composed by (intro exI [of _ router']) simp
qed

subsection \<open>The Delete view\<close>

text \<open>
  Claim C7. \<open>register_route\<close> of a Delete view constructed with keyword options adds
  exactly one operation to the router, with the verb DELETE, and the keyword arguments of
  that registration are the options as given to the constructor. (\<open>DeleteModelView\<close> is
  modelled from the spec.)
\<close>

theorem delete_router_kwargs_verbatim:
  assumes "get_id_type (VType m) = Inr t"
  shows "\<exists>router' r.
           register_route (Delete (DeleteModelView_init ds (Some kw))) router (VType m) = Inr router' \<and>
           routes router' = routes router @ [r] \<and> verb r = DELETE \<and> kwargs r = kw"
  using assms
  by (simp add: delete_register_route_def router_delete_def add_api_operation_def
      DeleteModelView_init_def AbstractModelView.extend_def)

text \<open>
  The test of the repository: \<open>router_kwargs={"exclude_unset": True}\<close> on an empty router.
\<close>

theorem delete_router_kwargs_verbatim_witness:
  "\<exists>router' r.
     register_route (Delete (DeleteModelView_init None (Some [(''exclude_unset'', KBool True)])))
       \<lparr>routes = []\<rparr> (VType Collection) = Inr router' \<and>
     routes router' = [r] \<and> verb r = DELETE \<and>
     map_of (kwargs r) ''exclude_unset'' = Some (KBool True)"
proof -
  obtain router' r where
    "register_route (Delete (DeleteModelView_init None (Some [(''exclude_unset'', KBool True)])))
       \<lparr>routes = []\<rparr> (VType Collection) = Inr router'"
    "routes router' = routes \<lparr>routes = []\<rparr> @ [r]" "verb r = DELETE"
    "kwargs r = [(''exclude_unset'', KBool True)]"
    using delete_router_kwargs_verbatim [OF get_id_type_Collection, of None "[(''exclude_unset'', KBool True)]" "\<lparr>routes = []\<rparr>"]
    by (elim exE conjE)
  then show ?thesis
    by (intro exI [of _ router'] exI [of _ r]) simp
qed

subsection \<open>Registration of a view set\<close>

text \<open>
  Claim C2. For a class with a \<open>model_class\<close> attribute (every class the metaclass has
  validated has one, by \<open>created_has_model_class\<close>), \<open>register_routes\<close> is the sequence
  of the calls \<open>register_route(router, cls.model_class)\<close> on the views of
  \<open>view_attrs\<close>, all with the one value of \<open>model_class\<close>; as in the source, a call
  that raises ends the sequence. For any class at all, a call of \<open>register_routes\<close> that
  returns has made exactly these calls, and the class had a \<open>model_class\<close> if it had a
  view. No attribute name occurs twice in \<open>view_attrs\<close>, and the list holds exactly the
  attributes whose value is a view.
\<close>

theorem register_routes_each_view_once:
  "(getattr cls ''model_class'' = Inr mc \<longrightarrow>
      register_routes cls router = register_all (map snd (view_attrs cls)) mc router) \<and>
   (register_routes cls router = Inr router' \<longrightarrow>
      (\<exists>mc'. (view_attrs cls \<noteq> [] \<longrightarrow> getattr cls ''model_class'' = Inr mc') \<and>
             register_all (map snd (view_attrs cls)) mc' router = Inr router')) \<and>
   distinct (map fst (view_attrs cls)) \<and>
   set (view_attrs cls) = {(n, v). getattr cls n = Inr (VView v)}"
proof (intro conjI impI)
  assume "getattr cls ''model_class'' = Inr mc"
  then show "register_routes cls router = register_all (map snd (view_attrs cls)) mc router"
    by (rule register_routes_register_all)
next
  assume ret: "register_routes cls router = Inr router'"
  show "\<exists>mc'. (view_attrs cls \<noteq> [] \<longrightarrow> getattr cls ''model_class'' = Inr mc') \<and>
              register_all (map snd (view_attrs cls)) mc' router = Inr router'"
  proof (cases "getattr cls ''model_class''")
    case (Inr m)
    then show ?thesis
      using register_routes_register_all [OF Inr, of router] ret by auto
  next
    case (Inl e)
    have none: "view_attrs cls = []"
    proof (rule ccontr)
      assume "view_attrs cls \<noteq> []"
      from register_routes_no_model_class [OF Inl this, of router] ret show False by simp
    qed
    then have "router' = router"
      using register_routes_no_views [of cls router] ret by simp
    then show ?thesis using none by simp
  qed
next
  show "distinct (map fst (view_attrs cls))"
    using view_attrs_sorted [of cls] by (simp add: strict_sorted_iff)
next
  show "set (view_attrs cls) = {(n, v). getattr cls n = Inr (VView v)}"
    by (rule view_attrs_set)
qed

text \<open>
  The view set \<open>CollectionViewSet\<close>, with two views of its own and one inherited.
\<close>

theorem register_routes_each_view_once_witness:
  "getattr CollectionViewSet ''model_class'' = Inr (VType Collection) \<and>
   register_routes CollectionViewSet \<lparr>routes = []\<rparr> =
     register_all
       [Delete (DeleteModelView_init None (Some [(''exclude_unset'', KBool True)])),
        Retrieve (RetrieveModelView_init CollectionOut None None),
        Retrieve (RetrieveModelView_init CollectionOut None None)]
       (VType Collection) \<lparr>routes = []\<rparr>"
proof -
  have "register_routes CollectionViewSet \<lparr>routes = []\<rparr> =
          register_all (map snd (view_attrs CollectionViewSet)) (VType Collection) \<lparr>routes = []\<rparr>"
    by (rule register_routes_each_view_once
          [of CollectionViewSet "VType Collection" "\<lparr>routes = []\<rparr>",
           THEN conjunct1, THEN mp, OF model_class_CollectionViewSet])
  then have "register_routes CollectionViewSet \<lparr>routes = []\<rparr> =
          register_all
            [Delete (DeleteModelView_init None (Some [(''exclude_unset'', KBool True)])),
             Retrieve (RetrieveModelView_init CollectionOut None None),
             Retrieve (RetrieveModelView_init CollectionOut None None)]
            (VType Collection) \<lparr>routes = []\<rparr>"
    by (simp only: view_attrs_CollectionViewSet list.map snd_conv)
  then show ?thesis
    using model_class_CollectionViewSet by (rule conjI [rotated])
qed

text \<open>
  Claim C8. When \<open>register_routes\<close> has succeeded on a router for a class with at least
  one view, a second call on the resulting router succeeds as well and appends the same
  operations once more: the router then holds every one of them twice.
\<close>

theorem register_routes_twice_duplicates:
  assumes "register_routes cls router = Inr router1" and "view_attrs cls \<noteq> []"
  shows "\<exists>new router2.
           new \<noteq> [] \<and> length new = length (view_attrs cls) \<and>
           routes router1 = routes router @ new \<and>
           register_routes cls router1 = Inr router2 \<and>
           routes router2 = routes router @ new @ new"
proof -
  obtain mc rs where rs: "length rs = length (view_attrs cls)"
    and all: "\<And>r. register_routes cls r = Inr (r\<lparr>routes := routes r @ rs\<rparr>)"
    using register_routes_appends [OF assms] by blast
  have ne: "rs \<noteq> []" using rs assms(2) by auto
  have r1: "router1 = router\<lparr>routes := routes router @ rs\<rparr>"
    using all [of router] assms(1) by simp
  show ?thesis
    by (intro exI [of _ rs] exI [of _ "router1\<lparr>routes := routes router1 @ rs\<rparr>"])
       (simp add: ne rs all r1)
qed

text \<open>
  \<open>CollectionViewSet\<close> registered twice on a router that was empty.
\<close>

theorem register_routes_twice_duplicates_witness:
  "\<exists>d r. register_routes CollectionViewSet \<lparr>routes = []\<rparr> = Inr \<lparr>routes = [d, r, r]\<rparr> \<and>
         register_routes CollectionViewSet \<lparr>routes = [d, r, r]\<rparr> =
           Inr \<lparr>routes = [d, r, r, d, r, r]\<rparr> \<and>
         verb d = DELETE \<and> verb r = GET"
proof -
  obtain d r where reg: "registrations (map snd (view_attrs CollectionViewSet)) (VType Collection) = Inr [d, r, r]"
    and vb: "verb d = DELETE" "verb r = GET"
    using registrations_CollectionViewSet by blast
  have first: "register_routes CollectionViewSet \<lparr>routes = []\<rparr> = Inr \<lparr>routes = [d, r, r]\<rparr>"
    by (simp add: register_routes_register_all [OF model_class_CollectionViewSet]
        register_all_registrations reg)
  have views: "view_attrs CollectionViewSet \<noteq> []"
    by (simp add: view_attrs_CollectionViewSet)
  obtain new router2 where
    "routes \<lparr>routes = [d, r, r]\<rparr> = routes \<lparr>routes = []\<rparr> @ new"
    "register_routes CollectionViewSet \<lparr>routes = [d, r, r]\<rparr> = Inr router2"
    "routes router2 = routes \<lparr>routes = []\<rparr> @ new @ new"
    using register_routes_twice_duplicates [OF first views] by blast
  then have "register_routes CollectionViewSet \<lparr>routes = [d, r, r]\<rparr> =
               Inr \<lparr>routes = [d, r, r, d, r, r]\<rparr>"
    by (cases router2) simp
  then show ?thesis using first vb by blast
qed

text \<open>
  Claim C10. The views are registered in the sorted order of their attribute names, which
  is the order of \<open>dir\<close> and not the order of declaration; a view that a class of the
  MRO declares and no earlier class of the MRO redefines is among them, and it is
  registered with the \<open>model_class\<close> of the class \<open>register_routes\<close> was called on.
\<close>

theorem register_routes_sorted_and_inherited:
  assumes "getattr cls ''model_class'' = Inr mc"
  shows "sorted_wrt (<) (map fst (view_attrs cls)) \<and>
         register_routes cls router = register_all (map snd (view_attrs cls)) mc router \<and>
         (\<forall>pre b post n v.
            full_mro cls = pre @ b # post \<and> (\<forall>c \<in> set pre. map_of (cdict c) n = None) \<and>
            map_of (cdict b) n = Some (VView v) \<longrightarrow> (n, v) \<in> set (view_attrs cls))"
proof -
  have "(n, v) \<in> set (view_attrs cls)"
    if "full_mro cls = pre @ b # post" "\<forall>c \<in> set pre. map_of (cdict c) n = None"
       "map_of (cdict b) n = Some (VView v)" for pre b post n v
  proof -
    have "lookup_mro (full_mro cls) n = Some (VView v)"
      unfolding that(1) by (rule lookup_mro_inherited [OF that(2,3)])
    then have "getattr cls n = Inr (VView v)" by (simp add: getattr_def)
    then show ?thesis by (simp add: view_attrs_set)
  qed
  then show ?thesis
    using view_attrs_sorted [of cls] register_routes_register_all [OF assms] by blast
qed

text \<open>
  \<open>CollectionViewSet\<close> declares \<open>z_retrieve\<close> before \<open>a_delete\<close> and inherits
  \<open>m_retrieve\<close> from \<open>BaseViewSet\<close>.
\<close>

theorem register_routes_sorted_and_inherited_witness:
  "getattr CollectionViewSet ''model_class'' = Inr (VType Collection) \<and>
   map fst (filter (\<lambda>(n, v). case v of VView _ \<Rightarrow> True | _ \<Rightarrow> False) (cdict CollectionViewSet)) =
     [''z_retrieve'', ''a_delete''] \<and>
   map fst (view_attrs CollectionViewSet) = [''a_delete'', ''m_retrieve'', ''z_retrieve''] \<and>
   sorted_wrt (<) (map fst (view_attrs CollectionViewSet)) \<and>
   map_of (cdict BaseViewSet) ''m_retrieve'' =
     Some (VView (Retrieve (RetrieveModelView_init CollectionOut None None))) \<and>
   (''m_retrieve'', Retrieve (RetrieveModelView_init CollectionOut None None))
     \<in> set (view_attrs CollectionViewSet) \<and>
   register_routes CollectionViewSet \<lparr>routes = []\<rparr> =
     register_all (map snd (view_attrs CollectionViewSet)) (VType Collection) \<lparr>routes = []\<rparr>"
proof -
  let ?v = "Retrieve (RetrieveModelView_init CollectionOut None None)"
  have mro: "full_mro CollectionViewSet = [CollectionViewSet] @ BaseViewSet # [ModelViewSet, object_type]"
    by (simp add: full_mro_def CollectionViewSet_def)
  have own: "\<forall>c \<in> set [CollectionViewSet]. map_of (cdict c) ''m_retrieve'' = None"
    by (simp add: CollectionViewSet_def CollectionViewSet_attrs_def)
  have base: "map_of (cdict BaseViewSet) ''m_retrieve'' = Some (VView ?v)"
    by (simp add: BaseViewSet_def BaseViewSet_attrs_def)
  have decl: "map fst (filter (\<lambda>(n, v). case v of VView _ \<Rightarrow> True | _ \<Rightarrow> False)
                (cdict CollectionViewSet)) = [''z_retrieve'', ''a_delete'']"
    by (simp add: CollectionViewSet_def CollectionViewSet_attrs_def)
  have names: "map fst (view_attrs CollectionViewSet) = [''a_delete'', ''m_retrieve'', ''z_retrieve'']"
    by (simp add: view_attrs_CollectionViewSet)
  note main = register_routes_sorted_and_inherited [OF model_class_CollectionViewSet, of "\<lparr>routes = []\<rparr>"]
  from main have inh: "(''m_retrieve'', ?v) \<in> set (view_attrs CollectionViewSet)"
    using mro own base by blast
  from main have srt: "sorted_wrt (<) (map fst (view_attrs CollectionViewSet))"
    and reg: "register_routes CollectionViewSet \<lparr>routes = []\<rparr> =
       register_all (map snd (view_attrs CollectionViewSet)) (VType Collection) \<lparr>routes = []\<rparr>"
    by blast+
  show ?thesis
    using model_class_CollectionViewSet decl names srt base inh reg by blast
qed

end
